theory Spec2Isabelle
  imports
    Main
    "HOL-Library.AList"
    "HOL-Library.Char_ord"
    "HOL-Library.List_Lexorder"
begin

section \<open>Values and exceptions\<close>

text \<open>
  The tool exchanges JSON with the device (\<^verbatim>\<open>r.json()\<close>) and with the broker
  (\<^verbatim>\<open>json.loads\<close>). A decoded document is one of Python's \<^verbatim>\<open>None\<close>, \<^verbatim>\<open>bool\<close>,
  \<^verbatim>\<open>int\<close>, \<^verbatim>\<open>float\<close>, \<^verbatim>\<open>str\<close>, \<^verbatim>\<open>list\<close> or \<^verbatim>\<open>dict\<close>. A dict is an association
  list in insertion order; \<^verbatim>\<open>d.get(k)\<close> is \<open>map_of\<close>, \<^verbatim>\<open>d[k] = v\<close> is
  \<open>AList.update\<close> (overwrite in place, or append a new key at the end).
  A float is a finite binary fraction \<open>m * 2 ^ e\<close>, an infinity or a NaN
  (\<^verbatim>\<open>json.loads\<close> accepts \<^verbatim>\<open>Infinity\<close> and \<^verbatim>\<open>NaN\<close>); no function below
  looks inside one.
\<close>

datatype pyfloat = Finite int int | Infinity bool | NaN

datatype json =
    JNull
  | JBool bool
  | JInt int
  | JFloat pyfloat
  | JStr string
  | JList "json list"
  | JObj "(string \<times> json) list"

text \<open>
  The exceptions the code can meet. \<open>RequestException\<close> stands for everything
  \<^verbatim>\<open>requests.get\<close>, \<^verbatim>\<open>raise_for_status\<close> and \<^verbatim>\<open>r.json()\<close> raise (connection
  error, timeout, HTTP error status, undecodable body), \<open>AttributeError\<close> for a
  method call on a value that has no such method, \<open>OSError\<close> for a failing file
  operation. All are subclasses of Python's \<^verbatim>\<open>Exception\<close>.
\<close>

datatype exn = RequestException string | AttributeError | OSError string

definition bind_exn :: "'e + 'a \<Rightarrow> ('a \<Rightarrow> 'e + 'b) \<Rightarrow> 'e + 'b" where
  "bind_exn m f = (case m of Inl e \<Rightarrow> Inl e | Inr a \<Rightarrow> f a)"

text \<open>
  \<^verbatim>\<open>x.get(k, default)\<close>: only a dict has the method; on any other value the
  attribute lookup raises \<^verbatim>\<open>AttributeError\<close>.
\<close>

fun py_get :: "json \<Rightarrow> string \<Rightarrow> json \<Rightarrow> exn + json" where
  "py_get (JObj kvs) k dflt = Inr (case map_of kvs k of None \<Rightarrow> dflt | Some v \<Rightarrow> v)"
| "py_get _ k dflt = Inl AttributeError"

text \<open>\<^verbatim>\<open>isinstance(v, (int, float))\<close>; \<^verbatim>\<open>bool\<close> is a subclass of \<^verbatim>\<open>int\<close>.\<close>

fun isinstance_int_float :: "json \<Rightarrow> bool" where
  "isinstance_int_float (JInt _) = True"
| "isinstance_int_float (JFloat _) = True"
| "isinstance_int_float (JBool _) = True"
| "isinstance_int_float _ = False"

text \<open>Truthiness of an optional string argument: \<^verbatim>\<open>None\<close> and \<^verbatim>\<open>""\<close> are false.\<close>

fun truthy :: "string option \<Rightarrow> bool" where
  "truthy None = False"
| "truthy (Some s) = (s \<noteq> [])"

text \<open>The value of an optional string argument where the code uses it as a string.\<close>

fun str_opt :: "string option \<Rightarrow> string" where
  "str_opt None = ''None''"
| "str_opt (Some s) = s"

text \<open>A name between apostrophes, as \<^verbatim>\<open>'{k}'\<close> in an f-string.\<close>

definition quoted :: "string \<Rightarrow> string" where
  "quoted k = CHR 0x27 # k @ [CHR 0x27]"

section \<open>Validation of a sensor payload\<close>

definition REQUIRED_KEYS :: "string list" where
  "REQUIRED_KEYS = [''Temperature'', ''Humidity'', ''Pressure'']"

text \<open>
  The loop \<^verbatim>\<open>for k in REQUIRED_KEYS\<close> of \<^verbatim>\<open>validate_payload\<close>, with the list
  \<^verbatim>\<open>errors\<close> as accumulator. \<open>py_repr\<close> is Python's built-in \<^verbatim>\<open>repr\<close>, used by
  \<^verbatim>\<open>{v!r}\<close>.
\<close>

fun validate_fields :: "(json \<Rightarrow> string) \<Rightarrow> json \<Rightarrow> string list \<Rightarrow> string list \<Rightarrow> exn + string list" where
  "validate_fields py_repr cs [] errors = Inr errors"
| "validate_fields py_repr cs (k # ks) errors =
     (case py_get cs k JNull of
        Inl e \<Rightarrow> Inl e
      | Inr v \<Rightarrow>
          if v = JNull then
            validate_fields py_repr cs ks (errors @ [''Missing '' @ quoted k])
          else if \<not> isinstance_int_float v then
            validate_fields py_repr cs ks (errors @ [quoted k @ '' not numeric: '' @ py_repr v])
          else validate_fields py_repr cs ks errors)"

definition validate_payload :: "(json \<Rightarrow> string) \<Rightarrow> json \<Rightarrow> exn + string list" where
  "validate_payload py_repr payload =
     (case py_get payload ''CustomSensor'' JNull of
        Inl e \<Rightarrow> Inl e
      | Inr cs \<Rightarrow>
          if cs = JNull then Inr [''Missing '' @ quoted ''CustomSensor'' @ '' key'']
          else validate_fields py_repr cs REQUIRED_KEYS [])"

text \<open>
  The specification's reading of one required field, for comparison with the loop above:
  no error when the field holds an int, a float or a bool, the missing-field error when
  the key is absent or holds \<^verbatim>\<open>None\<close>, the type error with the value's \<^verbatim>\<open>repr\<close>
  otherwise.
\<close>

definition spec_field_errors :: "(json \<Rightarrow> string) \<Rightarrow> (string \<times> json) list \<Rightarrow> string \<Rightarrow> string list" where
  "spec_field_errors py_repr fs k =
     (case map_of fs k of
        None \<Rightarrow> [''Missing '' @ quoted k]
      | Some v \<Rightarrow>
          if v = JNull then [''Missing '' @ quoted k]
          else if isinstance_int_float v then []
          else [quoted k @ '' not numeric: '' @ py_repr v])"

section \<open>The HTTP command endpoint\<close>

text \<open>
  A request as \<^verbatim>\<open>requests.get(url, params=params, timeout=timeout)\<close> sees it. The
  device and the network between are a \<open>responder\<close>: from the requests sent so far and
  the present one to what \<^verbatim>\<open>requests.get\<close>, \<^verbatim>\<open>raise_for_status\<close> and \<^verbatim>\<open>r.json()\<close>
  make of the answer, an exception or the decoded body. The list of requests sent is
  the state every call passes on.
\<close>

record request =
  req_url :: string
  req_params :: "(string \<times> string) list"
  req_timeout :: nat

type_synonym responder = "request list \<Rightarrow> request \<Rightarrow> exn + json"

text \<open>
  \<^verbatim>\<open>http_get_json\<close> in two steps: the request it builds (the URL, and the query
  parameters with the WebUI credentials added when both are given and non-empty), and
  the call itself.
\<close>

definition prepare_request ::
  "string \<Rightarrow> string \<Rightarrow> (string \<times> string) list \<Rightarrow> nat \<Rightarrow> string option \<Rightarrow> string option \<Rightarrow> request" where
  "prepare_request ip path params timeout web_user web_pass =
     (let url = ''http://'' @ ip @ path;
          params' =
            (if truthy web_user \<and> truthy web_pass then
               AList.update ''password'' (str_opt web_pass)
                 (AList.update ''user'' (str_opt web_user) params)
             else params)
      in \<lparr>req_url = url, req_params = params', req_timeout = timeout\<rparr>)"

definition http_get_json ::
  "responder \<Rightarrow> string \<Rightarrow> string \<Rightarrow> (string \<times> string) list \<Rightarrow> nat \<Rightarrow>
   string option \<Rightarrow> string option \<Rightarrow> request list \<Rightarrow> (exn + json) \<times> request list" where
  "http_get_json rsp ip path params timeout web_user web_pass sent =
     (let r = prepare_request ip path params timeout web_user web_pass
      in (rsp sent r, sent @ [r]))"

section \<open>Discovery\<close>

text \<open>The dict \<^verbatim>\<open>{"ip": ..., "hostname": ..., "topic": ...}\<close> a successful probe returns.\<close>

record device =
  dev_ip :: string
  dev_hostname :: json
  dev_topic :: json

text \<open>The status query \<^verbatim>\<open>probe_tasmota\<close> has \<^verbatim>\<open>http_get_json\<close> build.\<close>

definition probe_request :: "string option \<Rightarrow> string option \<Rightarrow> string \<Rightarrow> request" where
  "probe_request web_user web_pass ip =
     prepare_request ip ''/cm'' [(''cmnd'', ''Status 0'')] 2 web_user web_pass"

text \<open>
  The body of the \<^verbatim>\<open>try\<close> block of \<^verbatim>\<open>probe_tasmota\<close> after the request, and the
  function itself, whose \<^verbatim>\<open>except Exception\<close> turns every exception into \<^verbatim>\<open>None\<close>.
\<close>

definition probe_response :: "string \<Rightarrow> json \<Rightarrow> exn + device option" where
  "probe_response ip data =
     (case data of
        JObj kvs \<Rightarrow>
          if ''StatusNET'' \<notin> fst ` set kvs \<or> ''Status'' \<notin> fst ` set kvs then Inr None
          else
            bind_exn (py_get data ''StatusNET'' (JObj [])) (\<lambda>net.
            bind_exn (py_get net ''Hostname'' (JStr ip)) (\<lambda>host.
            bind_exn (py_get data ''Status'' (JObj [])) (\<lambda>status.
            bind_exn (py_get status ''Topic'' JNull) (\<lambda>topic.
            Inr (Some \<lparr>dev_ip = ip, dev_hostname = host, dev_topic = topic\<rparr>)))))
      | _ \<Rightarrow> Inr None)"

definition probe_tasmota ::
  "responder \<Rightarrow> string \<Rightarrow> string option \<Rightarrow> string option \<Rightarrow> request list \<Rightarrow>
   device option \<times> request list" where
  "probe_tasmota rsp ip web_user web_pass sent =
     (case http_get_json rsp ip ''/cm'' [(''cmnd'', ''Status 0'')] 2 web_user web_pass sent of
        (Inl e, sent') \<Rightarrow> (None, sent')
      | (Inr data, sent') \<Rightarrow>
          (case probe_response ip data of
             Inl e \<Rightarrow> (None, sent')
           | Inr r \<Rightarrow> (r, sent')))"

text \<open>Decimal digits of a natural number, and Python's \<^verbatim>\<open>str\<close> of an int.\<close>

function dec_digits :: "nat \<Rightarrow> string" where
  "dec_digits n =
     (if n < 10 then [''0123456789'' ! n]
      else dec_digits (n div 10) @ [''0123456789'' ! (n mod 10)])"
  by pat_completeness auto
termination
  by (relation "measure id") auto

definition str_int :: "int \<Rightarrow> string" where
  "str_int i = (if i < 0 then CHR ''-'' # dec_digits (nat (- i)) else dec_digits (nat i))"

text \<open>
  \<^verbatim>\<open>socket.inet_ntoa\<close>: four packed octets (each below 256) to dotted decimal text; any
  other length raises.
\<close>

fun inet_ntoa :: "nat list \<Rightarrow> exn + string" where
  "inet_ntoa [a, b, c, d] =
     Inr (dec_digits a @ ''.'' @ dec_digits b @ ''.'' @ dec_digits c @ ''.'' @ dec_digits d)"
| "inet_ntoa _ = Inl (OSError ''packed IP wrong length for inet_ntoa'')"

text \<open>
  \<^verbatim>\<open>TasmotaListener.add_service\<close> on the set \<^verbatim>\<open>self.ips\<close>; \<open>info\<close> is what
  \<^verbatim>\<open>zc.get_service_info\<close> returned, \<^verbatim>\<open>None\<close> or the packed addresses of the service.
\<close>

fun add_addresses :: "nat list list \<Rightarrow> string set \<Rightarrow> exn + string set" where
  "add_addresses [] ips = Inr ips"
| "add_addresses (addr # rest) ips =
     (if length addr = 4 then
        (case inet_ntoa addr of
           Inl e \<Rightarrow> Inl e
         | Inr s \<Rightarrow> add_addresses rest (insert s ips))
      else add_addresses rest ips)"

definition add_service :: "nat list list option \<Rightarrow> string set \<Rightarrow> exn + string set" where
  "add_service info ips = (case info of None \<Rightarrow> Inr ips | Some addresses \<Rightarrow> add_addresses addresses ips)"

text \<open>
  \<^verbatim>\<open>discover\<close> once the scan is over: \<open>ips\<close> is \<^verbatim>\<open>listener.ips\<close>, a set of strings, and
  \<^verbatim>\<open>sorted\<close> orders strings character by character (a proper prefix first).
\<close>

fun discover_loop ::
  "responder \<Rightarrow> string option \<Rightarrow> string option \<Rightarrow> string list \<Rightarrow> device list \<Rightarrow>
   request list \<Rightarrow> device list \<times> request list" where
  "discover_loop rsp web_user web_pass [] devices sent = (devices, sent)"
| "discover_loop rsp web_user web_pass (ip # ips) devices sent =
     (case probe_tasmota rsp ip web_user web_pass sent of
        (None, sent') \<Rightarrow> discover_loop rsp web_user web_pass ips devices sent'
      | (Some dev, sent') \<Rightarrow> discover_loop rsp web_user web_pass ips (devices @ [dev]) sent')"

definition discover ::
  "responder \<Rightarrow> string set \<Rightarrow> string option \<Rightarrow> string option \<Rightarrow> request list \<Rightarrow>
   device list \<times> request list" where
  "discover rsp ips web_user web_pass sent =
     discover_loop rsp web_user web_pass (sorted_list_of_set ips) [] sent"

section \<open>Configuration\<close>

text \<open>The request \<^verbatim>\<open>cmd\<close> has \<^verbatim>\<open>http_get_json\<close> build, and \<^verbatim>\<open>cmd\<close> itself.\<close>

definition cmd_request :: "string \<Rightarrow> string option \<Rightarrow> string option \<Rightarrow> string \<Rightarrow> request" where
  "cmd_request ip web_user web_pass command =
     prepare_request ip ''/cm'' [(''cmnd'', command)] 6 web_user web_pass"

definition cmd ::
  "responder \<Rightarrow> string \<Rightarrow> string \<Rightarrow> string option \<Rightarrow> string option \<Rightarrow> request list \<Rightarrow>
   (exn + json) \<times> request list" where
  "cmd rsp ip command web_user web_pass sent =
     http_get_json rsp ip ''/cm'' [(''cmnd'', command)] 6 web_user web_pass sent"

text \<open>
  The state of a run of \<^verbatim>\<open>configure\<close>: the local dict \<^verbatim>\<open>res\<close> and the requests sent.
  \<open>issue\<close> is one statement \<^verbatim>\<open>res[key] = cmd(ip, command, ...)\<close>. When the call raises,
  the exception leaves \<^verbatim>\<open>configure\<close> at once; \<open>Inl\<close> carries it together with the
  state at that moment, which in Python is the dying frame's local and is not handed
  to the caller. \<open>Inr\<close> is a normal return: \<open>cfg_res\<close> is then the dict returned.
\<close>

record cfg =
  cfg_res :: "(string \<times> json) list"
  cfg_sent :: "request list"

definition issue ::
  "responder \<Rightarrow> string \<Rightarrow> string option \<Rightarrow> string option \<Rightarrow> string \<Rightarrow> string \<Rightarrow> cfg \<Rightarrow>
   (exn \<times> cfg) + cfg" where
  "issue rsp ip web_user web_pass key command st =
     (case cmd rsp ip command web_user web_pass (cfg_sent st) of
        (Inl e, sent') \<Rightarrow> Inl (e, st\<lparr>cfg_sent := sent'\<rparr>)
      | (Inr r, sent') \<Rightarrow> Inr \<lparr>cfg_res = AList.update key r (cfg_res st), cfg_sent = sent'\<rparr>)"

text \<open>The redaction at the end of \<^verbatim>\<open>configure\<close>.\<close>

definition redact :: "(string \<times> json) list \<Rightarrow> (string \<times> json) list" where
  "redact res =
     (let res' = AList.update ''Password1'' (JStr ''***'') res
      in if ''MqttPassword'' \<in> fst ` set res' then AList.update ''MqttPassword'' (JStr ''***'') res'
         else res')"

definition configure ::
  "responder \<Rightarrow> string \<Rightarrow> string \<Rightarrow> string \<Rightarrow> string \<Rightarrow> int \<Rightarrow> string option \<Rightarrow> string option \<Rightarrow>
   string option \<Rightarrow> string option \<Rightarrow> string option \<Rightarrow> request list \<Rightarrow> (exn \<times> cfg) + cfg" where
  "configure rsp ip ssid wifi_pass mqtt_host mqtt_port mqtt_user mqtt_pass topic web_user web_pass sent =
     bind_exn (issue rsp ip web_user web_pass ''SSID1'' (''SSID1 '' @ ssid)
                 \<lparr>cfg_res = [], cfg_sent = sent\<rparr>) (\<lambda>st.
     bind_exn (issue rsp ip web_user web_pass ''Password1'' (''Password1 '' @ wifi_pass) st) (\<lambda>st.
     bind_exn (issue rsp ip web_user web_pass ''MqttHost'' (''MqttHost '' @ mqtt_host) st) (\<lambda>st.
     bind_exn (issue rsp ip web_user web_pass ''MqttPort'' (''MqttPort '' @ str_int mqtt_port) st) (\<lambda>st.
     bind_exn (if truthy mqtt_user
               then issue rsp ip web_user web_pass ''MqttUser'' (''MqttUser '' @ str_opt mqtt_user) st
               else Inr st) (\<lambda>st.
     bind_exn (if truthy mqtt_pass
               then issue rsp ip web_user web_pass ''MqttPassword'' (''MqttPassword '' @ str_opt mqtt_pass) st
               else Inr st) (\<lambda>st.
     bind_exn (if truthy topic
               then issue rsp ip web_user web_pass ''Topic'' (''Topic '' @ str_opt topic) st
               else Inr st) (\<lambda>st.
     bind_exn (issue rsp ip web_user web_pass ''TelePeriod'' ''TelePeriod 10'' st) (\<lambda>st.
     Inr (st\<lparr>cfg_res := redact (cfg_res st)\<rparr>)))))))))"

text \<open>
  The specification's reading of the commands of one run, for comparison with \<open>configure\<close>:
  each command name with the command text, in the order of the specification, the
  three optional ones only when their argument is given and non-empty.
\<close>

definition spec_command_sequence ::
  "string \<Rightarrow> string \<Rightarrow> string \<Rightarrow> int \<Rightarrow> string option \<Rightarrow> string option \<Rightarrow> string option \<Rightarrow>
   (string \<times> string) list" where
  "spec_command_sequence ssid wifi_pass mqtt_host mqtt_port mqtt_user mqtt_pass topic =
     [(''SSID1'', ''SSID1 '' @ ssid),
      (''Password1'', ''Password1 '' @ wifi_pass),
      (''MqttHost'', ''MqttHost '' @ mqtt_host),
      (''MqttPort'', ''MqttPort '' @ str_int mqtt_port)]
     @ (if truthy mqtt_user then [(''MqttUser'', ''MqttUser '' @ str_opt mqtt_user)] else [])
     @ (if truthy mqtt_pass then [(''MqttPassword'', ''MqttPassword '' @ str_opt mqtt_pass)] else [])
     @ (if truthy topic then [(''Topic'', ''Topic '' @ str_opt topic)] else [])
     @ [(''TelePeriod'', ''TelePeriod 10'')]"

text \<open>Issuing a list of named commands one after another, up to the first exception.\<close>

fun issue_all ::
  "responder \<Rightarrow> string \<Rightarrow> string option \<Rightarrow> string option \<Rightarrow> (string \<times> string) list \<Rightarrow> cfg \<Rightarrow>
   (exn \<times> cfg) + cfg" where
  "issue_all rsp ip web_user web_pass [] st = Inr st"
| "issue_all rsp ip web_user web_pass ((key, command) # rest) st =
     bind_exn (issue rsp ip web_user web_pass key command st)
       (issue_all rsp ip web_user web_pass rest)"

section \<open>Telemetry\<close>

text \<open>
  A validation record; \<open>rec_payload = None\<close> is a record without the key
  \<^verbatim>\<open>"payload"\<close>.
\<close>

record validation_record =
  rec_ts :: string
  rec_valid :: bool
  rec_errors :: "string list"
  rec_payload :: "json option"

definition sub_topic :: "string \<Rightarrow> string" where
  "sub_topic topic = ''tele/'' @ topic @ ''/SENSOR''"

text \<open>\<^verbatim>\<open>on_connect\<close>, on the list of topics subscribed to.\<close>

definition on_connect :: "string \<Rightarrow> int \<Rightarrow> string list \<Rightarrow> string list" where
  "on_connect topic rc subscribed = (if rc = 0 then subscribed @ [sub_topic topic] else subscribed)"

text \<open>
  \<^verbatim>\<open>on_message\<close>, on the list \<^verbatim>\<open>results\<close>. \<open>json_loads\<close> is \<^verbatim>\<open>json.loads\<close>, giving the
  text of the exception (\<^verbatim>\<open>str(e)\<close>) or the decoded document; \<open>ts\<close> is the clock
  reading. Only \<^verbatim>\<open>json.loads\<close> is inside the \<^verbatim>\<open>try\<close>: an exception of
  \<^verbatim>\<open>validate_payload\<close> leaves the handler.
\<close>

definition on_message ::
  "(string \<Rightarrow> string + json) \<Rightarrow> (json \<Rightarrow> string) \<Rightarrow> string \<Rightarrow> string \<Rightarrow>
   validation_record list \<Rightarrow> exn + validation_record list" where
  "on_message json_loads py_repr ts msg_payload results =
     (case json_loads msg_payload of
        Inl e \<Rightarrow>
          Inr (results @ [\<lparr>rec_ts = ts, rec_valid = False, rec_errors = [e], rec_payload = None\<rparr>])
      | Inr payload \<Rightarrow>
          (case validate_payload py_repr payload of
             Inl x \<Rightarrow> Inl x
           | Inr errs \<Rightarrow>
               Inr (results @ [\<lparr>rec_ts = ts, rec_valid = (length errs = 0), rec_errors = errs,
                                rec_payload = Some payload\<rparr>])))"

section \<open>Report\<close>

record summary =
  sum_devices_found :: int
  sum_messages_received :: int
  sum_valid :: int
  sum_invalid :: int
  sum_pass :: bool

record report =
  rep_generated_at :: string
  rep_summary :: summary
  rep_devices :: "device list"
  rep_configuration :: "(string \<times> json) list"
  rep_validation :: "validation_record list"

text \<open>
  \<^verbatim>\<open>generate_report\<close>. \<open>now\<close> is the clock reading, \<open>write_file\<close> the outcome of
  opening \<open>path\<close> and dumping the report there (\<open>None\<close>: written). The progress
  lines printed to the console are left out, here as in every function above.
\<close>

definition generate_report ::
  "string \<Rightarrow> (string \<Rightarrow> exn option) \<Rightarrow> device list \<Rightarrow> (string \<times> json) list \<Rightarrow>
   validation_record list \<Rightarrow> string \<Rightarrow> exn + report" where
  "generate_report now write_file devices config_res validation path =
     (let passed = sum_list (map (\<lambda>v. 1) (filter rec_valid validation));
          rep = \<lparr>rep_generated_at = now,
                 rep_summary =
                   \<lparr>sum_devices_found = int (length devices),
                    sum_messages_received = int (length validation),
                    sum_valid = passed,
                    sum_invalid = int (length validation) - passed,
                    sum_pass = (passed > 0 \<and> passed = int (length validation))\<rparr>,
                 rep_devices = devices,
                 rep_configuration = config_res,
                 rep_validation = validation\<rparr>
      in case write_file path of Some e \<Rightarrow> Inl e | None \<Rightarrow> Inr rep)"

section \<open>Example inputs\<close>

text \<open>Python's \<^verbatim>\<open>repr\<close> on the one value the examples below apply it to, the str \<^verbatim>\<open>'wet'\<close>.\<close>

definition example_repr :: "json \<Rightarrow> string" where
  "example_repr v = (if v = JStr ''wet'' then quoted ''wet'' else [])"

text \<open>
  A network in which 10.0.0.5 does not answer and every other address is a device
  with topic \<^verbatim>\<open>kitchen\<close> and no hostname in its status.
\<close>

definition example_net :: responder where
  "example_net sent r =
     (if req_url r = ''http://10.0.0.5/cm'' then Inl (RequestException ''timed out'')
      else Inr (JObj [(''Status'', JObj [(''Topic'', JStr ''kitchen'')]), (''StatusNET'', JObj [])]))"

text \<open>
  A device that answers every command with the query parameters it received, and the
  same device behind a network that drops the third request.
\<close>

definition echo_device :: responder where
  "echo_device sent r = Inr (JObj (map (\<lambda>(k, v). (k, JStr v)) (req_params r)))"

definition echo_then_fail :: responder where
  "echo_then_fail sent r =
     (if length sent = 2 then Inl (RequestException ''timed out'') else echo_device sent r)"

text \<open>\<^verbatim>\<open>json.loads\<close> on the message \<^verbatim>\<open>5\<close>; any other text is taken as undecodable.\<close>

definition example_loads :: "string \<Rightarrow> string + json" where
  "example_loads raw =
     (if raw = ''5'' then Inr (JInt 5) else Inl ''Expecting value: line 1 column 1 (char 0)'')"

text \<open>A disk on which every write succeeds.\<close>

definition disk_ok :: "string \<Rightarrow> exn option" where
  "disk_ok path = None"

text \<open>
  Three records: an undecodable message, a payload without Pressure, a valid payload.
\<close>

definition example_validation :: "validation_record list" where
  "example_validation =
     [\<lparr>rec_ts = ''t1'', rec_valid = False, rec_errors = [''Expecting value''], rec_payload = None\<rparr>,
      \<lparr>rec_ts = ''t2'', rec_valid = False, rec_errors = [''Missing '' @ quoted ''Pressure''],
        rec_payload =
          Some (JObj [(''CustomSensor'', JObj [(''Temperature'', JInt 21), (''Humidity'', JInt 40)])])\<rparr>,
      \<lparr>rec_ts = ''t3'', rec_valid = True, rec_errors = [],
        rec_payload =
          Some (JObj [(''CustomSensor'',
                       JObj [(''Temperature'', JInt 21), (''Humidity'', JInt 40),
                             (''Pressure'', JInt 1013)])])\<rparr>]"

section \<open>Properties of the payload validator\<close>

lemma validate_fields_object:
  "validate_fields py_repr (JObj fs) ks errors =
     Inr (errors @ concat (map (spec_field_errors py_repr fs) ks))"
  by (induction ks arbitrary: errors) (auto simp: spec_field_errors_def split: option.splits)

lemma validate_fields_not_object:
  "ks \<noteq> [] \<Longrightarrow> \<forall>fs. cs \<noteq> JObj fs \<Longrightarrow> validate_fields py_repr cs ks errors = Inl AttributeError"
  by (cases ks; cases cs) auto

text \<open>
  C3, as the code has it. A payload that is an object without the key
  \<^verbatim>\<open>CustomSensor\<close> gets exactly one error, the missing-section error, and nothing else
  of the payload plays a part: the result is the one of the empty object, whatever the
  other entries and whatever \<^verbatim>\<open>repr\<close> would give, so no field was checked.
\<close>

theorem validate_payload_missing_section:
  "map_of kvs ''CustomSensor'' = None \<Longrightarrow>
   validate_payload py_repr (JObj kvs) = Inr [''Missing '' @ quoted ''CustomSensor'' @ '' key''] \<and>
   validate_payload py_repr (JObj kvs) = validate_payload py_repr' (JObj [])"
  by (simp add: validate_payload_def)

theorem validate_payload_missing_section_witness:
  "map_of [(''Time'', JStr ''t''), (''Temperature'', JStr ''wet'')] ''CustomSensor'' = None \<and>
   validate_payload example_repr (JObj [(''Time'', JStr ''t''), (''Temperature'', JStr ''wet'')])
     = Inr [''Missing '' @ quoted ''CustomSensor'' @ '' key'']"
  using validate_payload_missing_section
    [of "[(''Time'', JStr ''t''), (''Temperature'', JStr ''wet'')]" example_repr]
  by simp

text \<open>
  C3 as stated fails on a payload that is not an object. The documents \<^verbatim>\<open>5\<close>,
  \<^verbatim>\<open>[]\<close> and \<^verbatim>\<open>"x"\<close> hold no key \<^verbatim>\<open>CustomSensor\<close>, yet the validator returns no
  error for them: the call \<^verbatim>\<open>payload.get\<close> raises.
\<close>

theorem validate_payload_non_object_counterexample:
  "validate_payload example_repr (JInt 5) = Inl AttributeError \<and>
   validate_payload example_repr (JList []) = Inl AttributeError \<and>
   validate_payload example_repr (JStr ''x'') = Inl AttributeError"
  by (simp add: validate_payload_def)



text \<open>
  C9, as the code has it. When the key \<^verbatim>\<open>CustomSensor\<close> is present with a value that is
  neither an object nor null, \<^verbatim>\<open>validate_payload\<close> raises \<^verbatim>\<open>AttributeError\<close> instead
  of returning errors. A null value does not raise: it is reported as the missing
  section.
\<close>

theorem validate_payload_section_not_object:
  "map_of kvs ''CustomSensor'' = Some cs \<Longrightarrow>
   (cs = JNull \<longrightarrow>
      validate_payload py_repr (JObj kvs) = Inr [''Missing '' @ quoted ''CustomSensor'' @ '' key'']) \<and>
   (cs \<noteq> JNull \<and> (\<forall>fs. cs \<noteq> JObj fs) \<longrightarrow>
      validate_payload py_repr (JObj kvs) = Inl AttributeError)"
proof -
  assume present: "map_of kvs ''CustomSensor'' = Some cs"
  have keys: "REQUIRED_KEYS \<noteq> []"
    by (simp add: REQUIRED_KEYS_def)
  show ?thesis
    using present validate_fields_not_object [OF keys, of cs py_repr "[]"]
    by (simp add: validate_payload_def)
qed

theorem validate_payload_section_not_object_witness:
  "map_of [(''CustomSensor'', JInt 5)] ''CustomSensor'' = Some (JInt 5) \<and>
   validate_payload example_repr (JObj [(''CustomSensor'', JInt 5)]) = Inl AttributeError"
  using validate_payload_section_not_object [of "[(''CustomSensor'', JInt 5)]" "JInt 5" example_repr]
  by simp

text \<open>
  C9 as stated fails on the payload \<^verbatim>\<open>{"CustomSensor": null}\<close>: the key is present, its
  value is not an object, and the validator returns an error list.
\<close>

theorem validate_payload_null_section_counterexample:
  "validate_payload example_repr (JObj [(''CustomSensor'', JNull)]) =
     Inr [''Missing '' @ quoted ''CustomSensor'' @ '' key'']"
  by (simp add: validate_payload_def)

text \<open>
  C10. A payload whose section is an object holding booleans in all three required
  fields is fully valid: the error list is empty.
\<close>

theorem validate_payload_booleans:
  "map_of kvs ''CustomSensor'' = Some (JObj fs) \<Longrightarrow>
   map_of fs ''Temperature'' = Some (JBool t) \<Longrightarrow>
   map_of fs ''Humidity'' = Some (JBool h) \<Longrightarrow>
   map_of fs ''Pressure'' = Some (JBool p) \<Longrightarrow>
   validate_payload py_repr (JObj kvs) = Inr []"
  by (simp add: validate_payload_def validate_fields_object REQUIRED_KEYS_def spec_field_errors_def)

theorem validate_payload_booleans_witness:
  "validate_payload example_repr
     (JObj [(''CustomSensor'',
             JObj [(''Temperature'', JBool True), (''Humidity'', JBool False),
                   (''Pressure'', JBool True)])]) = Inr []"
  using validate_payload_booleans
    [of "[(''CustomSensor'',
           JObj [(''Temperature'', JBool True), (''Humidity'', JBool False),
                 (''Pressure'', JBool True)])]"
        "[(''Temperature'', JBool True), (''Humidity'', JBool False), (''Pressure'', JBool True)]"
        True False True example_repr]
  by simp

section \<open>Properties of the report\<close>

lemma sum_list_ones: "sum_list (map (\<lambda>v. 1::int) xs) = int (length xs)"
  by (induction xs) auto

lemma generate_report_returns:
  "write_file path = None \<Longrightarrow>
   \<exists>rep. generate_report now write_file devices config_res validation path = Inr rep"
  by (simp add: generate_report_def Let_def)

text \<open>
  C1. In every report that \<^verbatim>\<open>generate_report\<close> returns, valid and invalid add up to the
  number of messages received, valid counts the records marked valid, and pass holds
  exactly when at least one message was received and all of them are valid; with no
  message, pass is false.
\<close>

theorem generate_report_summary:
  "generate_report now write_file devices config_res validation path = Inr rep \<Longrightarrow>
   sum_valid (rep_summary rep) + sum_invalid (rep_summary rep) =
     sum_messages_received (rep_summary rep) \<and>
   sum_messages_received (rep_summary rep) = int (length validation) \<and>
   sum_valid (rep_summary rep) = int (length (filter rec_valid validation)) \<and>
   (sum_pass (rep_summary rep) \<longleftrightarrow>
      sum_messages_received (rep_summary rep) > 0 \<and>
      sum_valid (rep_summary rep) = sum_messages_received (rep_summary rep)) \<and>
   (sum_messages_received (rep_summary rep) = 0 \<longrightarrow> \<not> sum_pass (rep_summary rep))"
  by (auto simp: generate_report_def Let_def sum_list_ones split: option.splits)

theorem generate_report_summary_witness:
  "generate_report ''now'' disk_ok [] [] example_validation ''report.json''
     = Inr \<lparr>rep_generated_at = ''now'',
            rep_summary = \<lparr>sum_devices_found = 0, sum_messages_received = 3, sum_valid = 1,
                            sum_invalid = 2, sum_pass = False\<rparr>,
            rep_devices = [], rep_configuration = [], rep_validation = example_validation\<rparr> \<and>
   sum_valid (rep_summary (projr (generate_report ''now'' disk_ok [] [] example_validation ''report.json'')))
     + sum_invalid (rep_summary (projr (generate_report ''now'' disk_ok [] [] example_validation ''report.json'')))
     = sum_messages_received
         (rep_summary (projr (generate_report ''now'' disk_ok [] [] example_validation ''report.json'')))"
proof -
  have r: "generate_report ''now'' disk_ok [] [] example_validation ''report.json''
     = Inr \<lparr>rep_generated_at = ''now'',
            rep_summary = \<lparr>sum_devices_found = 0, sum_messages_received = 3, sum_valid = 1,
                            sum_invalid = 2, sum_pass = False\<rparr>,
            rep_devices = [], rep_configuration = [], rep_validation = example_validation\<rparr>"
    by (simp add: generate_report_def disk_ok_def example_validation_def)
  from generate_report_summary [OF r] r show ?thesis
    by simp
qed

section \<open>Properties of the prober\<close>

lemma probe_tasmota_sent:
  "snd (probe_tasmota rsp ip wu wp sent) = sent @ [probe_request wu wp ip]"
  by (simp add: probe_tasmota_def http_get_json_def probe_request_def Let_def split: sum.splits)

lemma probe_tasmota_ip:
  "fst (probe_tasmota rsp ip wu wp sent) = Some dev \<Longrightarrow> dev_ip dev = ip"
  by (auto simp: probe_tasmota_def http_get_json_def Let_def probe_response_def bind_exn_def
      split: sum.splits json.splits if_splits)

lemma key_absent: "k \<notin> fst ` set kvs \<longleftrightarrow> map_of kvs k = None"
  by (simp add: map_of_eq_None_iff)

text \<open>
  C7. \<^verbatim>\<open>probe_tasmota\<close> always returns, a device or \<^verbatim>\<open>None\<close>. Whatever the
  transport did: an exception of the request gives \<^verbatim>\<open>None\<close>; so does a body that is
  not an object, an object lacking \<^verbatim>\<open>StatusNET\<close> or \<^verbatim>\<open>Status\<close>, and one in which
  either section is not itself an object. When both sections are objects the probe
  succeeds: the hostname is the one of the response, or the probed address when the
  response has none, and the topic is the one of the response, or \<^verbatim>\<open>None\<close> when it
  has none.
\<close>

theorem probe_tasmota_absent_or_device:
  "fst (http_get_json rsp ip ''/cm'' [(''cmnd'', ''Status 0'')] 2 wu wp sent) = outcome \<Longrightarrow>
   (outcome = Inl e \<longrightarrow> fst (probe_tasmota rsp ip wu wp sent) = None) \<and>
   (outcome = Inr data \<and> (\<forall>kvs. data \<noteq> JObj kvs) \<longrightarrow>
      fst (probe_tasmota rsp ip wu wp sent) = None) \<and>
   (outcome = Inr (JObj kvs) \<and> (map_of kvs ''StatusNET'' = None \<or> map_of kvs ''Status'' = None) \<longrightarrow>
      fst (probe_tasmota rsp ip wu wp sent) = None) \<and>
   (outcome = Inr (JObj kvs) \<and> map_of kvs ''StatusNET'' = Some net \<and> map_of kvs ''Status'' = Some status \<and>
    ((\<forall>fs. net \<noteq> JObj fs) \<or> (\<forall>fs. status \<noteq> JObj fs)) \<longrightarrow>
      fst (probe_tasmota rsp ip wu wp sent) = None) \<and>
   (outcome = Inr (JObj kvs) \<and> map_of kvs ''StatusNET'' = Some (JObj nfs) \<and>
    map_of kvs ''Status'' = Some (JObj sfs) \<longrightarrow>
      fst (probe_tasmota rsp ip wu wp sent) =
        Some \<lparr>dev_ip = ip,
              dev_hostname = (case map_of nfs ''Hostname'' of None \<Rightarrow> JStr ip | Some h \<Rightarrow> h),
              dev_topic = (case map_of sfs ''Topic'' of None \<Rightarrow> JNull | Some t \<Rightarrow> t)\<rparr>)"
proof -
  assume out: "fst (http_get_json rsp ip ''/cm'' [(''cmnd'', ''Status 0'')] 2 wu wp sent) = outcome"
  then have p: "fst (probe_tasmota rsp ip wu wp sent) =
      (case outcome of Inl e \<Rightarrow> None
       | Inr data \<Rightarrow> (case probe_response ip data of Inl e \<Rightarrow> None | Inr r \<Rightarrow> r))"
    by (auto simp: probe_tasmota_def split: prod.splits sum.splits)
  have a: "outcome = Inl e \<longrightarrow> fst (probe_tasmota rsp ip wu wp sent) = None"
    by (simp add: p)
  have b: "outcome = Inr data \<and> (\<forall>kvs. data \<noteq> JObj kvs) \<longrightarrow>
      fst (probe_tasmota rsp ip wu wp sent) = None"
    by (cases data) (simp_all add: p probe_response_def)
  have c: "outcome = Inr (JObj kvs) \<and> (map_of kvs ''StatusNET'' = None \<or> map_of kvs ''Status'' = None) \<longrightarrow>
      fst (probe_tasmota rsp ip wu wp sent) = None"
    by (auto simp: p probe_response_def key_absent)
  have d: "outcome = Inr (JObj kvs) \<and> map_of kvs ''StatusNET'' = Some net \<and> map_of kvs ''Status'' = Some status \<and>
    ((\<forall>fs. net \<noteq> JObj fs) \<or> (\<forall>fs. status \<noteq> JObj fs)) \<longrightarrow>
      fst (probe_tasmota rsp ip wu wp sent) = None"
    by (cases net; cases status) (auto simp: p probe_response_def key_absent bind_exn_def)
  have e: "outcome = Inr (JObj kvs) \<and> map_of kvs ''StatusNET'' = Some (JObj nfs) \<and>
    map_of kvs ''Status'' = Some (JObj sfs) \<longrightarrow>
      fst (probe_tasmota rsp ip wu wp sent) =
        Some \<lparr>dev_ip = ip,
              dev_hostname = (case map_of nfs ''Hostname'' of None \<Rightarrow> JStr ip | Some h \<Rightarrow> h),
              dev_topic = (case map_of sfs ''Topic'' of None \<Rightarrow> JNull | Some t \<Rightarrow> t)\<rparr>"
    by (auto simp: p probe_response_def key_absent bind_exn_def)
  from a b c d e show ?thesis by blast
qed

theorem probe_tasmota_absent_or_device_witness:
  "fst (probe_tasmota example_net ''10.0.0.5'' None None []) = None \<and>
   fst (probe_tasmota example_net ''10.0.0.9'' None None []) =
     Some \<lparr>dev_ip = ''10.0.0.9'', dev_hostname = JStr ''10.0.0.9'', dev_topic = JStr ''kitchen''\<rparr>"
proof -
  have down: "fst (http_get_json example_net ''10.0.0.5'' ''/cm'' [(''cmnd'', ''Status 0'')] 2 None None [])
      = Inl (RequestException ''timed out'')"
    by (simp add: http_get_json_def prepare_request_def example_net_def)
  have up: "fst (http_get_json example_net ''10.0.0.9'' ''/cm'' [(''cmnd'', ''Status 0'')] 2 None None [])
      = Inr (JObj [(''Status'', JObj [(''Topic'', JStr ''kitchen'')]), (''StatusNET'', JObj [])])"
    by (simp add: http_get_json_def prepare_request_def example_net_def)
  from probe_tasmota_absent_or_device [OF down, of "RequestException ''timed out''"]
       probe_tasmota_absent_or_device [OF up, of _ _
         "[(''Status'', JObj [(''Topic'', JStr ''kitchen'')]), (''StatusNET'', JObj [])]" _ _ "[]"
         "[(''Topic'', JStr ''kitchen'')]"]
  show ?thesis by simp
qed

section \<open>Properties of discovery\<close>

lemma map_filter_map: "List.map_filter f (map g xs) = List.map_filter (f \<circ> g) xs"
  by (simp add: List.map_filter_def filter_map comp_def)

lemma map_filter_upt_Suc:
  "List.map_filter f [0..<Suc n] =
     (case f 0 of None \<Rightarrow> [] | Some y \<Rightarrow> [y]) @ List.map_filter (f \<circ> Suc) [0..<n]"
proof -
  have "[0..<Suc n] = 0 # map Suc [0..<n]"
    by (simp add: upt_conv_Cons map_Suc_upt del: upt_Suc)
  then show ?thesis
    by (simp add: List.map_filter_simps map_filter_map del: upt_Suc split: option.splits)
qed

lemma discover_loop_spec:
  "discover_loop rsp wu wp xs devices sent =
     (devices @ List.map_filter
        (\<lambda>i. fst (probe_tasmota rsp (xs ! i) wu wp (sent @ map (probe_request wu wp) (take i xs))))
        [0..<length xs],
      sent @ map (probe_request wu wp) xs)"
proof (induction xs arbitrary: devices sent)
  case Nil
  show ?case by (simp add: List.map_filter_def)
next
  case (Cons x xs)
  obtain r where r: "probe_tasmota rsp x wu wp sent = (r, sent @ [probe_request wu wp x])"
    using probe_tasmota_sent [of rsp x wu wp sent] by (cases "probe_tasmota rsp x wu wp sent") auto
  show ?case
    by (cases r) (simp_all add: r Cons.IH map_filter_upt_Suc comp_def del: upt_Suc)
qed

lemma map_filter_ips:
  assumes "\<And>i d. i < length xs \<Longrightarrow> f i = Some d \<Longrightarrow> dev_ip d = xs ! i"
  shows "map dev_ip (List.map_filter f [0..<length xs]) = map ((!) xs) (filter (\<lambda>i. f i \<noteq> None) [0..<length xs])"
  using assms by (auto simp: List.map_filter_def)

lemma strictly_ascending_selection:
  assumes "sorted_wrt (<) (xs :: string list)"
  shows "sorted_wrt (<) (map ((!) xs) (filter P [0..<length xs]))"
proof -
  have "sorted_wrt (\<lambda>i j. xs ! i < xs ! j) [0..<length xs]"
    using assms by (simp add: sorted_wrt_iff_nth_less)
  then have "sorted_wrt (\<lambda>i j. xs ! i < xs ! j) (filter P [0..<length xs])"
    by (rule sorted_wrt_filter)
  then show ?thesis
    by (simp add: sorted_wrt_map)
qed

text \<open>
  C5, as the code has it. The addresses collected are strings, and \<^verbatim>\<open>sorted\<close>
  puts them in ascending order of their text. \<^verbatim>\<open>discover\<close> sends one status query
  to every collected address in that order, and returns the devices of the probes that
  succeeded, in the same order: the device list is strictly ascending in the address
  text and holds collected addresses only.
\<close>

theorem discover_probes_in_string_order:
  "finite ips \<Longrightarrow> xs = sorted_list_of_set ips \<Longrightarrow> discover rsp ips wu wp sent = (devs, sent') \<Longrightarrow>
   set xs = ips \<and> sorted_wrt (<) xs \<and>
   sent' = sent @ map (probe_request wu wp) xs \<and>
   devs = List.map_filter
            (\<lambda>i. fst (probe_tasmota rsp (xs ! i) wu wp (sent @ map (probe_request wu wp) (take i xs))))
            [0..<length xs] \<and>
   sorted_wrt (<) (map dev_ip devs) \<and> set (map dev_ip devs) \<subseteq> ips"
proof -
  assume fin: "finite ips" and xs: "xs = sorted_list_of_set ips"
    and run: "discover rsp ips wu wp sent = (devs, sent')"
  let ?f = "\<lambda>i. fst (probe_tasmota rsp (xs ! i) wu wp (sent @ map (probe_request wu wp) (take i xs)))"
  have set_xs: "set xs = ips"
    using fin xs by simp
  have asc: "sorted_wrt (<) xs"
    using xs by (simp add: strict_sorted_iff)
  have res: "devs = List.map_filter ?f [0..<length xs]" "sent' = sent @ map (probe_request wu wp) xs"
    using run by (simp_all add: discover_def discover_loop_spec xs [symmetric])
  have ips: "map dev_ip devs = map ((!) xs) (filter (\<lambda>i. ?f i \<noteq> None) [0..<length xs])"
    unfolding res(1) by (rule map_filter_ips) (rule probe_tasmota_ip)
  have "sorted_wrt (<) (map dev_ip devs)"
    unfolding ips using asc by (rule strictly_ascending_selection)
  moreover have "set (map dev_ip devs) \<subseteq> ips"
    unfolding ips using set_xs by auto
  ultimately show ?thesis
    using set_xs asc res by simp
qed

theorem discover_probes_in_string_order_witness:
  "finite {''10.0.0.5'', ''10.0.0.9''} \<and>
   discover example_net {''10.0.0.5'', ''10.0.0.9''} None None [] =
     ([\<lparr>dev_ip = ''10.0.0.9'', dev_hostname = JStr ''10.0.0.9'', dev_topic = JStr ''kitchen''\<rparr>],
      [probe_request None None ''10.0.0.5'', probe_request None None ''10.0.0.9''])"
proof -
  have fin: "finite {''10.0.0.5'', ''10.0.0.9''}"
    by simp
  have xs: "[''10.0.0.5'', ''10.0.0.9''] = sorted_list_of_set {''10.0.0.5'', ''10.0.0.9''}"
    by code_simp
  have p5: "fst (probe_tasmota example_net ''10.0.0.5'' None None []) = None"
    by (simp add: probe_tasmota_def http_get_json_def prepare_request_def example_net_def)
  have p9: "fst (probe_tasmota example_net ''10.0.0.9'' None None [probe_request None None ''10.0.0.5'']) =
     Some \<lparr>dev_ip = ''10.0.0.9'', dev_hostname = JStr ''10.0.0.9'', dev_topic = JStr ''kitchen''\<rparr>"
    by (simp add: probe_tasmota_def http_get_json_def prepare_request_def example_net_def
        probe_response_def bind_exn_def)
  have upt: "[0..<2] = [0, Suc 0]"
    by (simp add: upt_rec)
  from discover_probes_in_string_order [OF fin xs surjective_pairing, of example_net None None "[]"]
  show ?thesis
    by (simp add: fin p5 p9 upt List.map_filter_simps prod_eq_iff)
qed

text \<open>
  C5 as stated fails when the text order differs from the order of the addresses. A
  service announcing 10.0.0.9 and 10.0.0.10 leaves both in the listener's set; as packed
  addresses 10.0.0.9 comes first, yet 10.0.0.10 is probed and returned first.
\<close>

theorem discover_numeric_order_counterexample:
  "add_service (Some [[10, 0, 0, 9], [10, 0, 0, 10]]) {} = Inr {''10.0.0.9'', ''10.0.0.10''} \<and>
   [10, 0, 0, 9] < [10, 0, 0, 10 :: nat] \<and>
   map dev_ip (fst (discover example_net {''10.0.0.9'', ''10.0.0.10''} None None [])) =
     [''10.0.0.10'', ''10.0.0.9'']"
proof -
  have "add_service (Some [[10, 0, 0, 9], [10, 0, 0, 10]]) {} = Inr {''10.0.0.9'', ''10.0.0.10''}"
    by (simp add: add_service_def dec_digits.simps insert_commute)
  moreover have "map dev_ip (fst (discover example_net {''10.0.0.9'', ''10.0.0.10''} None None [])) =
     [''10.0.0.10'', ''10.0.0.9'']"
    by code_simp
  ultimately show ?thesis by simp
qed

section \<open>Properties of the configurator\<close>

lemma bind_exn_Inr: "bind_exn (Inr a) f = f a"
  by (simp add: bind_exn_def)

lemma bind_exn_assoc: "bind_exn (bind_exn m f) g = bind_exn m (\<lambda>x. bind_exn (f x) g)"
  by (simp add: bind_exn_def split: sum.splits)

lemma issue_all_Nil_fun: "issue_all rsp ip wu wp [] = Inr"
  by (rule ext) simp

lemma issue_all_Cons_fun:
  "issue_all rsp ip wu wp ((key, command) # rest) =
     (\<lambda>st. bind_exn (issue rsp ip wu wp key command st) (issue_all rsp ip wu wp rest))"
  by (rule ext) simp

lemma configure_issue_all:
  "configure rsp ip ssid wifi_pass mqtt_host mqtt_port mqtt_user mqtt_pass topic wu wp sent =
     bind_exn (issue_all rsp ip wu wp
                 (spec_command_sequence ssid wifi_pass mqtt_host mqtt_port mqtt_user mqtt_pass topic)
                 \<lparr>cfg_res = [], cfg_sent = sent\<rparr>)
       (\<lambda>st. Inr (st\<lparr>cfg_res := redact (cfg_res st)\<rparr>))"
  by (cases "truthy mqtt_user"; cases "truthy mqtt_pass"; cases "truthy topic")
     (simp_all add: configure_def spec_command_sequence_def bind_exn_Inr bind_exn_assoc
        issue_all_Nil_fun issue_all_Cons_fun)

lemma issue_Inr:
  "issue rsp ip wu wp key command st = Inr st' \<Longrightarrow>
     \<exists>r. rsp (cfg_sent st) (cmd_request ip wu wp command) = Inr r \<and>
         st' = \<lparr>cfg_res = AList.update key r (cfg_res st),
                cfg_sent = cfg_sent st @ [cmd_request ip wu wp command]\<rparr>"
  by (auto simp: issue_def cmd_def http_get_json_def cmd_request_def Let_def split: sum.splits)

lemma issue_Inl:
  "issue rsp ip wu wp key command st = Inl (e, st') \<Longrightarrow>
     rsp (cfg_sent st) (cmd_request ip wu wp command) = Inl e \<and>
     st' = st\<lparr>cfg_sent := cfg_sent st @ [cmd_request ip wu wp command]\<rparr>"
  by (auto simp: issue_def cmd_def http_get_json_def cmd_request_def Let_def split: sum.splits)

lemma issue_all_Inr:
  "issue_all rsp ip wu wp cs st = Inr st' \<Longrightarrow>
   cfg_sent st' = cfg_sent st @ map (cmd_request ip wu wp \<circ> snd) cs \<and>
   (\<exists>rs. length rs = length cs \<and>
      (\<forall>i < length cs.
         rsp (cfg_sent st @ map (cmd_request ip wu wp \<circ> snd) (take i cs))
             (cmd_request ip wu wp (snd (cs ! i))) = Inr (rs ! i)) \<and>
      cfg_res st' = fold (\<lambda>(k, r). AList.update k r) (zip (map fst cs) rs) (cfg_res st))"
proof (induction cs arbitrary: st)
  case Nil
  then show ?case by simp
next
  case (Cons c cs)
  obtain key command where c: "c = (key, command)" by (cases c)
  from Cons.prems obtain st1 where
    st1: "issue rsp ip wu wp key command st = Inr st1" and
    rest: "issue_all rsp ip wu wp cs st1 = Inr st'"
    by (auto simp: c bind_exn_def split: sum.splits)
  from issue_Inr [OF st1] obtain r where
    r: "rsp (cfg_sent st) (cmd_request ip wu wp command) = Inr r" and
    st1_eq: "st1 = \<lparr>cfg_res = AList.update key r (cfg_res st),
                     cfg_sent = cfg_sent st @ [cmd_request ip wu wp command]\<rparr>"
    by blast
  from Cons.IH [OF rest] obtain rs where
    sent: "cfg_sent st' = cfg_sent st1 @ map (cmd_request ip wu wp \<circ> snd) cs" and
    len: "length rs = length cs" and
    resp: "\<forall>i < length cs.
         rsp (cfg_sent st1 @ map (cmd_request ip wu wp \<circ> snd) (take i cs))
             (cmd_request ip wu wp (snd (cs ! i))) = Inr (rs ! i)" and
    res: "cfg_res st' = fold (\<lambda>(k, r). AList.update k r) (zip (map fst cs) rs) (cfg_res st1)"
    by blast
  have "\<forall>i < length (c # cs).
         rsp (cfg_sent st @ map (cmd_request ip wu wp \<circ> snd) (take i (c # cs)))
             (cmd_request ip wu wp (snd ((c # cs) ! i))) = Inr ((r # rs) ! i)"
  proof (intro allI impI)
    fix i assume "i < length (c # cs)"
    then show "rsp (cfg_sent st @ map (cmd_request ip wu wp \<circ> snd) (take i (c # cs)))
             (cmd_request ip wu wp (snd ((c # cs) ! i))) = Inr ((r # rs) ! i)"
      using r resp by (cases i) (simp_all add: c st1_eq)
  qed
  moreover have "cfg_res st' =
      fold (\<lambda>(k, r). AList.update k r) (zip (map fst (c # cs)) (r # rs)) (cfg_res st)"
    by (simp add: res c st1_eq)
  moreover have "cfg_sent st' = cfg_sent st @ map (cmd_request ip wu wp \<circ> snd) (c # cs)"
    by (simp add: sent c st1_eq)
  moreover have "length (r # rs) = length (c # cs)"
    by (simp add: len)
  ultimately show ?case by blast
qed

lemma issue_all_Inl:
  "issue_all rsp ip wu wp cs st = Inl (e, st') \<Longrightarrow>
   \<exists>n rs. n < length cs \<and> length rs = n \<and>
      rsp (cfg_sent st @ map (cmd_request ip wu wp \<circ> snd) (take n cs))
          (cmd_request ip wu wp (snd (cs ! n))) = Inl e \<and>
      (\<forall>i < n.
         rsp (cfg_sent st @ map (cmd_request ip wu wp \<circ> snd) (take i cs))
             (cmd_request ip wu wp (snd (cs ! i))) = Inr (rs ! i)) \<and>
      cfg_sent st' = cfg_sent st @ map (cmd_request ip wu wp \<circ> snd) (take (Suc n) cs) \<and>
      cfg_res st' = fold (\<lambda>(k, r). AList.update k r) (zip (map fst (take n cs)) rs) (cfg_res st)"
proof (induction cs arbitrary: st)
  case Nil
  then show ?case by simp
next
  case (Cons c cs)
  obtain key command where c: "c = (key, command)" by (cases c)
  show ?case
  proof (cases "issue rsp ip wu wp key command st")
    case (Inl x)
    with Cons.prems have x: "x = (e, st')"
      by (simp add: c bind_exn_def)
    from issue_Inl [OF Inl [unfolded x]] show ?thesis
      by (intro exI [of _ 0] exI [of _ "[]"]) (simp add: c)
  next
    case (Inr st1)
    with Cons.prems have rest: "issue_all rsp ip wu wp cs st1 = Inl (e, st')"
      by (simp add: c bind_exn_def)
    from issue_Inr [OF Inr] obtain r where
      r: "rsp (cfg_sent st) (cmd_request ip wu wp command) = Inr r" and
      st1_eq: "st1 = \<lparr>cfg_res = AList.update key r (cfg_res st),
                       cfg_sent = cfg_sent st @ [cmd_request ip wu wp command]\<rparr>"
      by blast
    from Cons.IH [OF rest] obtain n rs where
      n: "n < length cs" and len: "length rs = n" and
      fail: "rsp (cfg_sent st1 @ map (cmd_request ip wu wp \<circ> snd) (take n cs))
          (cmd_request ip wu wp (snd (cs ! n))) = Inl e" and
      resp: "\<forall>i < n.
         rsp (cfg_sent st1 @ map (cmd_request ip wu wp \<circ> snd) (take i cs))
             (cmd_request ip wu wp (snd (cs ! i))) = Inr (rs ! i)" and
      sent: "cfg_sent st' = cfg_sent st1 @ map (cmd_request ip wu wp \<circ> snd) (take (Suc n) cs)" and
      res: "cfg_res st' = fold (\<lambda>(k, r). AList.update k r) (zip (map fst (take n cs)) rs) (cfg_res st1)"
      by blast
    have "\<forall>i < Suc n.
         rsp (cfg_sent st @ map (cmd_request ip wu wp \<circ> snd) (take i (c # cs)))
             (cmd_request ip wu wp (snd ((c # cs) ! i))) = Inr ((r # rs) ! i)"
    proof (intro allI impI)
      fix i assume "i < Suc n"
      then show "rsp (cfg_sent st @ map (cmd_request ip wu wp \<circ> snd) (take i (c # cs)))
             (cmd_request ip wu wp (snd ((c # cs) ! i))) = Inr ((r # rs) ! i)"
        using r resp by (cases i) (simp_all add: c st1_eq)
    qed
    then have "\<forall>i < Suc n.
         rsp (cfg_sent st @ map (cmd_request ip wu wp \<circ> snd) (take i (c # cs)))
             (cmd_request ip wu wp (snd ((c # cs) ! i))) = Inr ((r # rs) ! i)" .
    moreover have "Suc n < length (c # cs)" "length (r # rs) = Suc n"
      using n len by simp_all
    moreover have "rsp (cfg_sent st @ map (cmd_request ip wu wp \<circ> snd) (take (Suc n) (c # cs)))
          (cmd_request ip wu wp (snd ((c # cs) ! Suc n))) = Inl e"
      using fail by (simp add: c st1_eq)
    moreover have "cfg_sent st' =
        cfg_sent st @ map (cmd_request ip wu wp \<circ> snd) (take (Suc (Suc n)) (c # cs))"
      using sent by (simp add: c st1_eq)
    moreover have "cfg_res st' =
        fold (\<lambda>(k, r). AList.update k r) (zip (map fst (take (Suc n) (c # cs))) (r # rs)) (cfg_res st)"
      using res by (simp add: c st1_eq)
    ultimately show ?thesis by blast
  qed
qed

lemma fold_update_fresh:
  "distinct (map fst acc @ ks) \<Longrightarrow> length rs = length ks \<Longrightarrow>
   fold (\<lambda>(k, r). AList.update k r) (zip ks rs) acc = acc @ zip ks rs"
proof (induction ks arbitrary: acc rs)
  case Nil
  then show ?case by simp
next
  case (Cons k ks)
  then obtain r rs' where rs: "rs = r # rs'" by (cases rs) auto
  have fresh: "AList.update k r acc = acc @ [(k, r)]"
    using Cons.prems(1) by (induction acc) auto
  show ?case
    using Cons.prems by (simp add: rs fresh Cons.IH)
qed

lemma spec_command_sequence_names:
  "distinct (map fst (spec_command_sequence ssid wifi_pass mqtt_host mqtt_port mqtt_user mqtt_pass topic))"
  by (simp add: spec_command_sequence_def)

lemma keys_update: "fst ` set (AList.update k v al) = insert k (fst ` set al)"
  by (simp add: dom_map_of_conv_image_fst [symmetric] update_conv')

lemma map_of_redact_other:
  "k \<noteq> ''Password1'' \<Longrightarrow> k \<noteq> ''MqttPassword'' \<Longrightarrow> map_of (redact res) k = map_of res k"
  by (simp add: redact_def Let_def update_conv')

lemma map_of_redact_Password1: "map_of (redact res) ''Password1'' = Some (JStr ''***'')"
  by (simp add: redact_def Let_def update_conv')

lemma map_of_redact_MqttPassword:
  "map_of (redact res) ''MqttPassword'' =
     (if ''MqttPassword'' \<in> fst ` set res then Some (JStr ''***'') else None)"
  by (simp add: redact_def Let_def update_conv' keys_update map_of_eq_None_iff)

lemma issue_succeeds:
  "rsp (cfg_sent st) (cmd_request ip wu wp command) = Inr r \<Longrightarrow>
   issue rsp ip wu wp key command st =
     Inr \<lparr>cfg_res = AList.update key r (cfg_res st),
          cfg_sent = cfg_sent st @ [cmd_request ip wu wp command]\<rparr>"
  by (simp add: issue_def cmd_def http_get_json_def cmd_request_def Let_def)

lemma issue_fails:
  "rsp (cfg_sent st) (cmd_request ip wu wp command) = Inl e \<Longrightarrow>
   issue rsp ip wu wp key command st =
     Inl (e, st\<lparr>cfg_sent := cfg_sent st @ [cmd_request ip wu wp command]\<rparr>)"
  by (simp add: issue_def cmd_def http_get_json_def cmd_request_def Let_def)

lemma issue_all_succeeds:
  "length rs = length cs \<Longrightarrow>
   \<forall>i < length cs.
      rsp (cfg_sent st @ map (cmd_request ip wu wp \<circ> snd) (take i cs))
          (cmd_request ip wu wp (snd (cs ! i))) = Inr (rs ! i) \<Longrightarrow>
   issue_all rsp ip wu wp cs st =
     Inr \<lparr>cfg_res = fold (\<lambda>(k, r). AList.update k r) (zip (map fst cs) rs) (cfg_res st),
          cfg_sent = cfg_sent st @ map (cmd_request ip wu wp \<circ> snd) cs\<rparr>"
proof (induction cs arbitrary: st rs)
  case Nil
  then show ?case by simp
next
  case (Cons c cs)
  obtain key command where c: "c = (key, command)" by (cases c)
  from Cons.prems(1) obtain r rs' where rs: "rs = r # rs'" and len: "length rs' = length cs"
    by (cases rs) auto
  let ?st1 = "\<lparr>cfg_res = AList.update key r (cfg_res st),
                cfg_sent = cfg_sent st @ [cmd_request ip wu wp command]\<rparr>"
  from Cons.prems(2) have first: "rsp (cfg_sent st) (cmd_request ip wu wp command) = Inr r"
    by (auto simp: c rs dest: spec [of _ 0])
  have later: "\<forall>i < length cs.
      rsp (cfg_sent ?st1 @ map (cmd_request ip wu wp \<circ> snd) (take i cs))
          (cmd_request ip wu wp (snd (cs ! i))) = Inr (rs' ! i)"
  proof (intro allI impI)
    fix i assume "i < length cs"
    then have "Suc i < length (c # cs)" by simp
    with Cons.prems(2) have
      "rsp (cfg_sent st @ map (cmd_request ip wu wp \<circ> snd) (take (Suc i) (c # cs)))
          (cmd_request ip wu wp (snd ((c # cs) ! Suc i))) = Inr (rs ! Suc i)"
      by blast
    then show "rsp (cfg_sent ?st1 @ map (cmd_request ip wu wp \<circ> snd) (take i cs))
          (cmd_request ip wu wp (snd (cs ! i))) = Inr (rs' ! i)"
      by (simp add: c rs)
  qed
  have step: "issue rsp ip wu wp key command st = Inr ?st1"
    using first by (rule issue_succeeds)
  show ?case
    by (simp add: c rs step bind_exn_Inr Cons.IH [OF len later])
qed

lemma configure_returns:
  assumes cs: "cs = spec_command_sequence ssid wifi_pass mqtt_host mqtt_port mqtt_user mqtt_pass topic"
    and len: "length rs = length cs"
    and ok: "\<forall>i < length cs.
      rsp (sent @ map (cmd_request ip wu wp \<circ> snd) (take i cs))
          (cmd_request ip wu wp (snd (cs ! i))) = Inr (rs ! i)"
  shows "configure rsp ip ssid wifi_pass mqtt_host mqtt_port mqtt_user mqtt_pass topic wu wp sent =
     Inr \<lparr>cfg_res = redact (zip (map fst cs) rs),
          cfg_sent = sent @ map (cmd_request ip wu wp \<circ> snd) cs\<rparr>"
proof -
  have names: "distinct (map fst cs)"
    unfolding cs by (rule spec_command_sequence_names)
  have raw: "fold (\<lambda>(k, r). AList.update k r) (zip (map fst cs) rs) [] = zip (map fst cs) rs"
    using fold_update_fresh [of "[]" "map fst cs" rs] names len by simp
  have "issue_all rsp ip wu wp cs \<lparr>cfg_res = [], cfg_sent = sent\<rparr> =
     Inr \<lparr>cfg_res = zip (map fst cs) rs, cfg_sent = sent @ map (cmd_request ip wu wp \<circ> snd) cs\<rparr>"
    using issue_all_succeeds [of rs cs rsp "\<lparr>cfg_res = [], cfg_sent = sent\<rparr>" ip wu wp] len ok
    by (simp add: raw)
  then show ?thesis
    by (simp add: configure_issue_all cs [symmetric] bind_exn_Inr)
qed

lemma issue_all_fails:
  "n < length cs \<Longrightarrow> length rs = n \<Longrightarrow>
   \<forall>i < n.
      rsp (cfg_sent st @ map (cmd_request ip wu wp \<circ> snd) (take i cs))
          (cmd_request ip wu wp (snd (cs ! i))) = Inr (rs ! i) \<Longrightarrow>
   rsp (cfg_sent st @ map (cmd_request ip wu wp \<circ> snd) (take n cs))
       (cmd_request ip wu wp (snd (cs ! n))) = Inl e \<Longrightarrow>
   issue_all rsp ip wu wp cs st =
     Inl (e, \<lparr>cfg_res = fold (\<lambda>(k, r). AList.update k r) (zip (map fst (take n cs)) rs) (cfg_res st),
              cfg_sent = cfg_sent st @ map (cmd_request ip wu wp \<circ> snd) (take (Suc n) cs)\<rparr>)"
proof (induction cs arbitrary: st rs n)
  case Nil
  then show ?case by simp
next
  case (Cons c cs)
  obtain key command where c: "c = (key, command)" by (cases c)
  show ?case
  proof (cases n)
    case 0
    with Cons.prems show ?thesis
      by (simp add: c issue_fails bind_exn_def)
  next
    case (Suc m)
    with Cons.prems(2) obtain r rs' where rs: "rs = r # rs'" and len: "length rs' = m"
      by (cases rs) auto
    let ?st1 = "\<lparr>cfg_res = AList.update key r (cfg_res st),
                  cfg_sent = cfg_sent st @ [cmd_request ip wu wp command]\<rparr>"
    from Cons.prems(3) have first: "rsp (cfg_sent st) (cmd_request ip wu wp command) = Inr r"
      by (auto simp: c rs Suc dest: spec [of _ 0])
    have m: "m < length cs"
      using Cons.prems(1) Suc by simp
    have later: "\<forall>i < m.
        rsp (cfg_sent ?st1 @ map (cmd_request ip wu wp \<circ> snd) (take i cs))
            (cmd_request ip wu wp (snd (cs ! i))) = Inr (rs' ! i)"
    proof (intro allI impI)
      fix i assume "i < m"
      then have "Suc i < n" by (simp add: Suc)
      with Cons.prems(3) have
        "rsp (cfg_sent st @ map (cmd_request ip wu wp \<circ> snd) (take (Suc i) (c # cs)))
            (cmd_request ip wu wp (snd ((c # cs) ! Suc i))) = Inr (rs ! Suc i)"
        by blast
      then show "rsp (cfg_sent ?st1 @ map (cmd_request ip wu wp \<circ> snd) (take i cs))
            (cmd_request ip wu wp (snd (cs ! i))) = Inr (rs' ! i)"
        by (simp add: c rs)
    qed
    have fail: "rsp (cfg_sent ?st1 @ map (cmd_request ip wu wp \<circ> snd) (take m cs))
         (cmd_request ip wu wp (snd (cs ! m))) = Inl e"
      using Cons.prems(4) by (simp add: c Suc comp_def)
    have step: "issue rsp ip wu wp key command st = Inr ?st1"
      using first by (rule issue_succeeds)
    show ?thesis
      by (simp add: c rs Suc step bind_exn_Inr Cons.IH [OF m len later fail])
  qed
qed

lemma configure_raises:
  assumes cs: "cs = spec_command_sequence ssid wifi_pass mqtt_host mqtt_port mqtt_user mqtt_pass topic"
    and n: "n < length cs" and len: "length rs = n"
    and ok: "\<forall>i < n.
      rsp (sent @ map (cmd_request ip wu wp \<circ> snd) (take i cs))
          (cmd_request ip wu wp (snd (cs ! i))) = Inr (rs ! i)"
    and fail: "rsp (sent @ map (cmd_request ip wu wp \<circ> snd) (take n cs))
          (cmd_request ip wu wp (snd (cs ! n))) = Inl e"
  shows "configure rsp ip ssid wifi_pass mqtt_host mqtt_port mqtt_user mqtt_pass topic wu wp sent =
     Inl (e, \<lparr>cfg_res = zip (map fst (take n cs)) rs,
              cfg_sent = sent @ map (cmd_request ip wu wp \<circ> snd) (take (Suc n) cs)\<rparr>)"
proof -
  have "distinct (map fst cs)"
    unfolding cs by (rule spec_command_sequence_names)
  then have "distinct (map fst (take n cs))"
    by (simp add: take_map [symmetric] distinct_take)
  then have raw: "fold (\<lambda>(k, r). AList.update k r) (zip (map fst (take n cs)) rs) [] =
      zip (map fst (take n cs)) rs"
    using fold_update_fresh [of "[]" "map fst (take n cs)" rs] n len by simp
  have "issue_all rsp ip wu wp cs \<lparr>cfg_res = [], cfg_sent = sent\<rparr> =
     Inl (e, \<lparr>cfg_res = zip (map fst (take n cs)) rs,
              cfg_sent = sent @ map (cmd_request ip wu wp \<circ> snd) (take (Suc n) cs)\<rparr>)"
    using issue_all_fails [of n cs rs rsp "\<lparr>cfg_res = [], cfg_sent = sent\<rparr>" ip wu wp e] n len ok fail
    by (simp add: raw)
  then show ?thesis
    by (simp add: configure_issue_all cs [symmetric] bind_exn_def)
qed

lemma redact_keeps_raw:
  assumes "distinct (map fst cs)" "length rs = length cs"
  shows "\<forall>i < length cs. fst (cs ! i) \<noteq> ''Password1'' \<and> fst (cs ! i) \<noteq> ''MqttPassword'' \<longrightarrow>
           map_of (redact (zip (map fst cs) rs)) (fst (cs ! i)) = Some (rs ! i)"
proof (intro allI impI)
  fix i assume i: "i < length cs"
    and other: "fst (cs ! i) \<noteq> ''Password1'' \<and> fst (cs ! i) \<noteq> ''MqttPassword''"
  have "map_of (zip (map fst cs) rs) (fst (cs ! i)) = Some (rs ! i)"
    using map_of_zip_nth [of "map fst cs" rs i] assms i by simp
  with other show "map_of (redact (zip (map fst cs) rs)) (fst (cs ! i)) = Some (rs ! i)"
    by (simp add: map_of_redact_other)
qed

lemma example_sequence:
  "spec_command_sequence ''home'' ''hunter2'' ''broker'' 1883 None None (Some ''kitchen'') =
     [(''SSID1'', ''SSID1 home''), (''Password1'', ''Password1 hunter2''),
      (''MqttHost'', ''MqttHost broker''), (''MqttPort'', ''MqttPort 1883''),
      (''Topic'', ''Topic kitchen''), (''TelePeriod'', ''TelePeriod 10'')]"
  by (simp add: spec_command_sequence_def str_int_def dec_digits.simps)

lemma example_run_auth:
  "configure echo_device ''10.0.0.9'' ''home'' ''hunter2'' ''broker'' 1883 (Some ''sensor'')
     (Some ''s3cret'') (Some ''kitchen'') None None [] =
   Inr \<lparr>cfg_res =
          [(''SSID1'', JObj [(''cmnd'', JStr ''SSID1 home'')]),
           (''Password1'', JStr ''***''),
           (''MqttHost'', JObj [(''cmnd'', JStr ''MqttHost broker'')]),
           (''MqttPort'', JObj [(''cmnd'', JStr ''MqttPort 1883'')]),
           (''MqttUser'', JObj [(''cmnd'', JStr ''MqttUser sensor'')]),
           (''MqttPassword'', JStr ''***''),
           (''Topic'', JObj [(''cmnd'', JStr ''Topic kitchen'')]),
           (''TelePeriod'', JObj [(''cmnd'', JStr ''TelePeriod 10'')])],
        cfg_sent =
          map (cmd_request ''10.0.0.9'' None None)
            [''SSID1 home'', ''Password1 hunter2'', ''MqttHost broker'', ''MqttPort 1883'',
             ''MqttUser sensor'', ''MqttPassword s3cret'', ''Topic kitchen'', ''TelePeriod 10'']\<rparr>"
  by (simp add: configure_def issue_def cmd_def http_get_json_def prepare_request_def cmd_request_def
      echo_device_def bind_exn_def redact_def str_int_def dec_digits.simps)

text \<open>
  C6. Let \<open>cs\<close> be the commands SSID1, Password1, MqttHost, MqttPort, then MqttUser,
  MqttPassword and Topic (each only when its argument is given and non-empty), then
  TelePeriod. When every one of these calls, sent in this order, succeeds with the raw
  response \<open>rs ! i\<close>, \<^verbatim>\<open>configure\<close> returns: the requests it sent are exactly these
  commands in this order, and the dict returned is the redaction of the dict that holds
  each raw response under its command name, so every entry but the two password
  entries still holds the raw response. Conversely, whenever \<^verbatim>\<open>configure\<close> returns,
  it sent exactly these commands in this order and every one of them succeeded.
\<close>

theorem configure_command_order:
  "cs = spec_command_sequence ssid wifi_pass mqtt_host mqtt_port mqtt_user mqtt_pass topic \<Longrightarrow>
   (length rs = length cs \<and>
    (\<forall>i < length cs.
       rsp (sent @ map (cmd_request ip wu wp \<circ> snd) (take i cs))
           (cmd_request ip wu wp (snd (cs ! i))) = Inr (rs ! i)) \<longrightarrow>
      configure rsp ip ssid wifi_pass mqtt_host mqtt_port mqtt_user mqtt_pass topic wu wp sent =
        Inr \<lparr>cfg_res = redact (zip (map fst cs) rs),
             cfg_sent = sent @ map (cmd_request ip wu wp \<circ> snd) cs\<rparr> \<and>
      (\<forall>i < length cs. fst (cs ! i) \<noteq> ''Password1'' \<and> fst (cs ! i) \<noteq> ''MqttPassword'' \<longrightarrow>
         map_of (redact (zip (map fst cs) rs)) (fst (cs ! i)) = Some (rs ! i))) \<and>
   (configure rsp ip ssid wifi_pass mqtt_host mqtt_port mqtt_user mqtt_pass topic wu wp sent = Inr st \<longrightarrow>
      cfg_sent st = sent @ map (cmd_request ip wu wp \<circ> snd) cs \<and>
      (\<exists>rs'. length rs' = length cs \<and>
         (\<forall>i < length cs.
            rsp (sent @ map (cmd_request ip wu wp \<circ> snd) (take i cs))
                (cmd_request ip wu wp (snd (cs ! i))) = Inr (rs' ! i)) \<and>
         cfg_res st = redact (zip (map fst cs) rs') \<and>
         (\<forall>i < length cs. fst (cs ! i) \<noteq> ''Password1'' \<and> fst (cs ! i) \<noteq> ''MqttPassword'' \<longrightarrow>
            map_of (cfg_res st) (fst (cs ! i)) = Some (rs' ! i))))"
proof -
  assume cs: "cs = spec_command_sequence ssid wifi_pass mqtt_host mqtt_port mqtt_user mqtt_pass topic"
  have names: "distinct (map fst cs)"
    unfolding cs by (rule spec_command_sequence_names)
  have forth: "configure rsp ip ssid wifi_pass mqtt_host mqtt_port mqtt_user mqtt_pass topic wu wp sent =
        Inr \<lparr>cfg_res = redact (zip (map fst cs) rs),
             cfg_sent = sent @ map (cmd_request ip wu wp \<circ> snd) cs\<rparr> \<and>
      (\<forall>i < length cs. fst (cs ! i) \<noteq> ''Password1'' \<and> fst (cs ! i) \<noteq> ''MqttPassword'' \<longrightarrow>
         map_of (redact (zip (map fst cs) rs)) (fst (cs ! i)) = Some (rs ! i))"
    if len: "length rs = length cs"
      and ok: "\<forall>i < length cs.
       rsp (sent @ map (cmd_request ip wu wp \<circ> snd) (take i cs))
           (cmd_request ip wu wp (snd (cs ! i))) = Inr (rs ! i)"
  proof -
    show ?thesis
      using configure_returns [OF cs len ok] redact_keeps_raw [OF names len] by simp
  qed
  have returned: "cfg_sent st = sent @ map (cmd_request ip wu wp \<circ> snd) cs \<and>
      (\<exists>rs'. length rs' = length cs \<and>
         (\<forall>i < length cs.
            rsp (sent @ map (cmd_request ip wu wp \<circ> snd) (take i cs))
                (cmd_request ip wu wp (snd (cs ! i))) = Inr (rs' ! i)) \<and>
         cfg_res st = redact (zip (map fst cs) rs') \<and>
         (\<forall>i < length cs. fst (cs ! i) \<noteq> ''Password1'' \<and> fst (cs ! i) \<noteq> ''MqttPassword'' \<longrightarrow>
            map_of (cfg_res st) (fst (cs ! i)) = Some (rs' ! i)))"
    if run: "configure rsp ip ssid wifi_pass mqtt_host mqtt_port mqtt_user mqtt_pass topic wu wp sent = Inr st"
  proof -
    from run obtain st0 where
      all: "issue_all rsp ip wu wp cs \<lparr>cfg_res = [], cfg_sent = sent\<rparr> = Inr st0" and
      st: "st = st0\<lparr>cfg_res := redact (cfg_res st0)\<rparr>"
      by (auto simp: configure_issue_all cs bind_exn_def split: sum.splits)
    from issue_all_Inr [OF all] obtain rs' where
      sent: "cfg_sent st0 = sent @ map (cmd_request ip wu wp \<circ> snd) cs" and
      len: "length rs' = length cs" and
      resp: "\<forall>i < length cs.
           rsp (sent @ map (cmd_request ip wu wp \<circ> snd) (take i cs))
               (cmd_request ip wu wp (snd (cs ! i))) = Inr (rs' ! i)" and
      res: "cfg_res st0 = fold (\<lambda>(k, r). AList.update k r) (zip (map fst cs) rs') []"
      by auto
    have raw: "cfg_res st0 = zip (map fst cs) rs'"
      using fold_update_fresh [of "[]" "map fst cs" rs'] names len by (simp add: res)
    have "cfg_res st = redact (zip (map fst cs) rs')"
      by (simp add: st raw)
    moreover from this have
      "\<forall>i < length cs. fst (cs ! i) \<noteq> ''Password1'' \<and> fst (cs ! i) \<noteq> ''MqttPassword'' \<longrightarrow>
         map_of (cfg_res st) (fst (cs ! i)) = Some (rs' ! i)"
      using redact_keeps_raw [OF names len] by simp
    moreover have "cfg_sent st = sent @ map (cmd_request ip wu wp \<circ> snd) cs"
      by (simp add: st sent)
    ultimately show ?thesis
      using len resp by blast
  qed
  from forth returned show ?thesis by blast
qed

theorem configure_command_order_witness:
  "configure echo_device ''10.0.0.9'' ''home'' ''hunter2'' ''broker'' 1883 None None (Some ''kitchen'')
     None None [] =
   Inr \<lparr>cfg_res =
          [(''SSID1'', JObj [(''cmnd'', JStr ''SSID1 home'')]),
           (''Password1'', JStr ''***''),
           (''MqttHost'', JObj [(''cmnd'', JStr ''MqttHost broker'')]),
           (''MqttPort'', JObj [(''cmnd'', JStr ''MqttPort 1883'')]),
           (''Topic'', JObj [(''cmnd'', JStr ''Topic kitchen'')]),
           (''TelePeriod'', JObj [(''cmnd'', JStr ''TelePeriod 10'')])],
        cfg_sent =
          map (cmd_request ''10.0.0.9'' None None)
            [''SSID1 home'', ''Password1 hunter2'', ''MqttHost broker'', ''MqttPort 1883'',
             ''Topic kitchen'', ''TelePeriod 10'']\<rparr>"
proof -
  let ?cs = "spec_command_sequence ''home'' ''hunter2'' ''broker'' 1883 None None (Some ''kitchen'')"
  let ?rs = "map (\<lambda>c. JObj [(''cmnd'', JStr (snd c))]) ?cs"
  have len: "length ?rs = length ?cs"
    by simp
  have ok: "\<forall>i < length ?cs.
       echo_device ([] @ map (cmd_request ''10.0.0.9'' None None \<circ> snd) (take i ?cs))
           (cmd_request ''10.0.0.9'' None None (snd (?cs ! i))) = Inr (?rs ! i)"
    by (simp add: echo_device_def cmd_request_def prepare_request_def)
  from configure_command_order
         [OF refl, where rs = ?rs and rsp = echo_device and sent = "[]" and ip = "''10.0.0.9''"
            and wu = None and wp = None] len ok
  show ?thesis
    by (simp add: example_sequence redact_def)
qed

text \<open>
  C2, as the code has it. When every command succeeds, the dict returned holds
  \<^verbatim>\<open>"***"\<close> under Password1, and under MqttPassword when a broker password was given
  (there is no such entry otherwise). When the call of command \<open>n\<close> raises, the
  exception leaves \<^verbatim>\<open>configure\<close>: nothing is returned, no redaction runs, and the
  local dict holds the raw responses of the commands before \<open>n\<close>.
\<close>

theorem configure_redaction:
  "cs = spec_command_sequence ssid wifi_pass mqtt_host mqtt_port mqtt_user mqtt_pass topic \<Longrightarrow>
   (configure rsp ip ssid wifi_pass mqtt_host mqtt_port mqtt_user mqtt_pass topic wu wp sent = Inr st \<longrightarrow>
      map_of (cfg_res st) ''Password1'' = Some (JStr ''***'') \<and>
      map_of (cfg_res st) ''MqttPassword'' = (if truthy mqtt_pass then Some (JStr ''***'') else None)) \<and>
   (configure rsp ip ssid wifi_pass mqtt_host mqtt_port mqtt_user mqtt_pass topic wu wp sent = Inl (e, st) \<longrightarrow>
      (\<exists>n rs. n < length cs \<and> length rs = n \<and>
         rsp (sent @ map (cmd_request ip wu wp \<circ> snd) (take n cs))
             (cmd_request ip wu wp (snd (cs ! n))) = Inl e \<and>
         (\<forall>i < n.
            rsp (sent @ map (cmd_request ip wu wp \<circ> snd) (take i cs))
                (cmd_request ip wu wp (snd (cs ! i))) = Inr (rs ! i)) \<and>
         cfg_res st = zip (map fst (take n cs)) rs))"
proof -
  assume cs: "cs = spec_command_sequence ssid wifi_pass mqtt_host mqtt_port mqtt_user mqtt_pass topic"
  have names: "distinct (map fst cs)"
    unfolding cs by (rule spec_command_sequence_names)
  have pw: "''MqttPassword'' \<in> set (map fst cs) \<longleftrightarrow> truthy mqtt_pass"
    by (cases "truthy mqtt_user"; cases "truthy mqtt_pass"; cases "truthy topic")
       (simp_all add: cs spec_command_sequence_def)
  have ok: "map_of (cfg_res st) ''Password1'' = Some (JStr ''***'') \<and>
      map_of (cfg_res st) ''MqttPassword'' = (if truthy mqtt_pass then Some (JStr ''***'') else None)"
    if run: "configure rsp ip ssid wifi_pass mqtt_host mqtt_port mqtt_user mqtt_pass topic wu wp sent = Inr st"
  proof -
    from run obtain st0 where
      all: "issue_all rsp ip wu wp cs \<lparr>cfg_res = [], cfg_sent = sent\<rparr> = Inr st0" and
      st: "st = st0\<lparr>cfg_res := redact (cfg_res st0)\<rparr>"
      by (auto simp: configure_issue_all cs bind_exn_def split: sum.splits)
    from issue_all_Inr [OF all] obtain rs where
      len: "length rs = length cs" and
      res: "cfg_res st0 = fold (\<lambda>(k, r). AList.update k r) (zip (map fst cs) rs) []"
      by auto
    have raw: "cfg_res st0 = zip (map fst cs) rs"
      using fold_update_fresh [of "[]" "map fst cs" rs] names len by (simp add: res)
    have keys: "fst ` set (cfg_res st0) = set (map fst cs)"
      using len by (simp add: raw del: set_map) (metis len length_map map_fst_zip set_map)
    show ?thesis
      using pw by (simp add: st map_of_redact_Password1 map_of_redact_MqttPassword keys del: set_map)
  qed
  have bad: "\<exists>n rs. n < length cs \<and> length rs = n \<and>
         rsp (sent @ map (cmd_request ip wu wp \<circ> snd) (take n cs))
             (cmd_request ip wu wp (snd (cs ! n))) = Inl e \<and>
         (\<forall>i < n.
            rsp (sent @ map (cmd_request ip wu wp \<circ> snd) (take i cs))
                (cmd_request ip wu wp (snd (cs ! i))) = Inr (rs ! i)) \<and>
         cfg_res st = zip (map fst (take n cs)) rs"
    if run: "configure rsp ip ssid wifi_pass mqtt_host mqtt_port mqtt_user mqtt_pass topic wu wp sent = Inl (e, st)"
  proof -
    from run have all: "issue_all rsp ip wu wp cs \<lparr>cfg_res = [], cfg_sent = sent\<rparr> = Inl (e, st)"
      by (auto simp: configure_issue_all cs bind_exn_def split: sum.splits)
    from issue_all_Inl [OF all] obtain n rs where
      n: "n < length cs" and len: "length rs = n" and
      fail: "rsp (sent @ map (cmd_request ip wu wp \<circ> snd) (take n cs))
          (cmd_request ip wu wp (snd (cs ! n))) = Inl e" and
      resp: "\<forall>i < n.
         rsp (sent @ map (cmd_request ip wu wp \<circ> snd) (take i cs))
             (cmd_request ip wu wp (snd (cs ! i))) = Inr (rs ! i)" and
      res: "cfg_res st = fold (\<lambda>(k, r). AList.update k r) (zip (map fst (take n cs)) rs) []"
      by auto
    have "distinct (map fst (take n cs))"
      using names by (simp add: take_map [symmetric] distinct_take)
    then have "cfg_res st = zip (map fst (take n cs)) rs"
      using fold_update_fresh [of "[]" "map fst (take n cs)" rs] n len by (simp add: res)
    with n len fail resp show ?thesis by blast
  qed
  from ok bad show ?thesis by blast
qed



theorem configure_redaction_witness:
  "map_of (cfg_res (projr (configure echo_device ''10.0.0.9'' ''home'' ''hunter2'' ''broker'' 1883
       (Some ''sensor'') (Some ''s3cret'') (Some ''kitchen'') None None []))) ''Password1''
     = Some (JStr ''***'') \<and>
   map_of (cfg_res (projr (configure echo_device ''10.0.0.9'' ''home'' ''hunter2'' ''broker'' 1883
       (Some ''sensor'') (Some ''s3cret'') (Some ''kitchen'') None None []))) ''MqttPassword''
     = Some (JStr ''***'')"
  using configure_redaction [OF refl, of echo_device "''10.0.0.9''" "''home''" "''hunter2''" "''broker''"
      1883 "Some ''sensor''" "Some ''s3cret''" "Some ''kitchen''" None None "[]"
      "projr (configure echo_device ''10.0.0.9'' ''home'' ''hunter2'' ''broker'' 1883
         (Some ''sensor'') (Some ''s3cret'') (Some ''kitchen'') None None [])"]
  by (simp add: example_run_auth)

text \<open>
  C2 as stated fails when a later command raises. With a device that echoes the
  command it received and a network that drops the third request, the exception of
  MqttHost leaves \<^verbatim>\<open>configure\<close> while the entry under Password1 is the raw response,
  carrying the wifi password, not the redaction marker.
\<close>

theorem configure_secret_not_redacted_counterexample:
  "configure echo_then_fail ''10.0.0.9'' ''home'' ''hunter2'' ''broker'' 1883 None None (Some ''kitchen'')
     None None [] =
   Inl (RequestException ''timed out'',
        \<lparr>cfg_res =
           [(''SSID1'', JObj [(''cmnd'', JStr ''SSID1 home'')]),
            (''Password1'', JObj [(''cmnd'', JStr ''Password1 hunter2'')])],
         cfg_sent =
           map (cmd_request ''10.0.0.9'' None None)
             [''SSID1 home'', ''Password1 hunter2'', ''MqttHost broker'']\<rparr>)"
  by (simp add: configure_def issue_def cmd_def http_get_json_def prepare_request_def cmd_request_def
      echo_then_fail_def echo_device_def bind_exn_def)

section \<open>Properties of the telemetry handler\<close>

lemma on_connect_accepted: "on_connect topic 0 subscribed = subscribed @ [''tele/'' @ topic @ ''/SENSOR'']"
  by (simp add: on_connect_def sub_topic_def)

lemma on_message_unparsable:
  "json_loads msg_payload = Inl e \<Longrightarrow>
   on_message json_loads py_repr ts msg_payload results =
     Inr (results @ [\<lparr>rec_ts = ts, rec_valid = False, rec_errors = [e], rec_payload = None\<rparr>])"
  by (simp add: on_message_def)

lemma on_message_validated:
  "json_loads msg_payload = Inr payload \<Longrightarrow> validate_payload py_repr payload = Inr errs \<Longrightarrow>
   on_message json_loads py_repr ts msg_payload results =
     Inr (results @ [\<lparr>rec_ts = ts, rec_valid = (errs = []), rec_errors = errs,
                      rec_payload = Some payload\<rparr>])"
  by (simp add: on_message_def)

lemma on_message_validator_raises:
  "json_loads msg_payload = Inr payload \<Longrightarrow> validate_payload py_repr payload = Inl x \<Longrightarrow>
   on_message json_loads py_repr ts msg_payload results = Inl x"
  by (simp add: on_message_def)

text \<open>
  C8 on the message \<^verbatim>\<open>5\<close>. The text parses, to the int 5; \<^verbatim>\<open>validate_payload\<close> calls
  \<^verbatim>\<open>.get\<close> on it and raises outside the \<^verbatim>\<open>try\<close>, so the handler raises and no
  record is appended for this message.
\<close>

theorem on_message_non_object_raises:
  "on_message example_loads example_repr ''2026-01-01T00:00:00+00:00'' ''5'' [] = Inl AttributeError"
  by (simp add: on_message_def example_loads_def validate_payload_def)

end
